theory Spec2Isabelle
  imports Main
begin

section \<open>Python strings\<close>

text \<open>
  A Python \<^verbatim>\<open>str\<close> is a sequence of Unicode code points, so it is modelled as a list of
  natural numbers. \<open>py\<close> turns an ASCII literal into such a string.
\<close>

type_synonym pystr = "nat list"

definition py :: "string \<Rightarrow> pystr" where
  "py s = map of_char s"

text \<open>
  \<^verbatim>\<open>str.isspace\<close> on one code point: the characters that \<^verbatim>\<open>str.strip()\<close> removes.
\<close>

definition isspace :: "nat \<Rightarrow> bool" where
  "isspace c \<longleftrightarrow>
     (0x09 \<le> c \<and> c \<le> 0x0D) \<or> (0x1C \<le> c \<and> c \<le> 0x20) \<or> c = 0x85 \<or> c = 0xA0 \<or>
     c = 0x1680 \<or> (0x2000 \<le> c \<and> c \<le> 0x200A) \<or> c = 0x2028 \<or> c = 0x2029 \<or>
     c = 0x202F \<or> c = 0x205F \<or> c = 0x3000"

definition lstrip :: "pystr \<Rightarrow> pystr" where
  "lstrip s = dropWhile isspace s"

definition rstrip :: "pystr \<Rightarrow> pystr" where
  "rstrip s = rev (dropWhile isspace (rev s))"

definition strip :: "pystr \<Rightarrow> pystr" where
  "strip s = rstrip (lstrip s)"

section \<open>\<^verbatim>\<open>urllib.parse.unquote\<close>\<close>

text \<open>
  \<^verbatim>\<open>unquote(string)\<close> with its defaults \<^verbatim>\<open>encoding='utf-8', errors='replace'\<close>: a string
  without \<^verbatim>\<open>%\<close> is returned as it is; otherwise every maximal run of ASCII characters has
  its \<^verbatim>\<open>%XX\<close> escapes turned into bytes and is decoded as UTF-8, every malformed
  sequence becoming U+FFFD, and the characters beyond ASCII are kept.
\<close>

definition hexval :: "nat \<Rightarrow> nat option" where
  "hexval c =
     (if 0x30 \<le> c \<and> c \<le> 0x39 then Some (c - 0x30)
      else if 0x41 \<le> c \<and> c \<le> 0x46 then Some (c - 0x37)
      else if 0x61 \<le> c \<and> c \<le> 0x66 then Some (c - 0x57)
      else None)"

text \<open>
  \<^verbatim>\<open>unquote_to_bytes\<close> on an ASCII string: \<^verbatim>\<open>%\<close> followed by two hexadecimal digits
  is one byte, any other \<^verbatim>\<open>%\<close> stays.
\<close>

fun unquote_to_bytes :: "pystr \<Rightarrow> nat list" where
  "unquote_to_bytes (c # h # l # rest) =
     (if c = 0x25 then
        (case hexval h of
           None \<Rightarrow> c # unquote_to_bytes (h # l # rest)
         | Some a \<Rightarrow>
            (case hexval l of
               None \<Rightarrow> c # unquote_to_bytes (h # l # rest)
             | Some b \<Rightarrow> (16 * a + b) # unquote_to_bytes rest))
      else c # unquote_to_bytes (h # l # rest))"
| "unquote_to_bytes (c # rest) = c # unquote_to_bytes rest"
| "unquote_to_bytes [] = []"

definition is_cont :: "nat \<Rightarrow> bool" where
  "is_cont b \<longleftrightarrow> 0x80 \<le> b \<and> b < 0xC0"

text \<open>
  \<^verbatim>\<open>bytes.decode('utf-8', 'replace')\<close>: an invalid start byte, a lead byte with its
  valid continuation bytes up to the first invalid one, and a sequence cut by the end of
  the data are each replaced by one U+FFFD.
\<close>

fun utf8_decode :: "nat list \<Rightarrow> pystr" where
  "utf8_decode [] = []"
| "utf8_decode (ch # s) =
     (if ch < 0x80 then ch # utf8_decode s
      else if ch < 0xC2 then 0xFFFD # utf8_decode s
      else if ch < 0xE0 then
        (case s of
           [] \<Rightarrow> [0xFFFD]
         | ch2 # s2 \<Rightarrow>
            if \<not> is_cont ch2 then 0xFFFD # utf8_decode s
            else ((ch - 0xC0) * 0x40 + (ch2 - 0x80)) # utf8_decode s2)
      else if ch < 0xF0 then
        (case s of
           [] \<Rightarrow> [0xFFFD]
         | ch2 # s2 \<Rightarrow>
            if \<not> is_cont ch2 \<or> (ch = 0xE0 \<and> ch2 < 0xA0) \<or> (ch = 0xED \<and> 0xA0 \<le> ch2)
            then 0xFFFD # utf8_decode s
            else
              (case s2 of
                 [] \<Rightarrow> [0xFFFD]
               | ch3 # s3 \<Rightarrow>
                  if \<not> is_cont ch3 then 0xFFFD # utf8_decode s2
                  else ((ch - 0xE0) * 0x1000 + (ch2 - 0x80) * 0x40 + (ch3 - 0x80))
                       # utf8_decode s3))
      else if ch < 0xF5 then
        (case s of
           [] \<Rightarrow> [0xFFFD]
         | ch2 # s2 \<Rightarrow>
            if \<not> is_cont ch2 \<or> (ch = 0xF0 \<and> ch2 < 0x90) \<or> (ch = 0xF4 \<and> 0x90 \<le> ch2)
            then 0xFFFD # utf8_decode s
            else
              (case s2 of
                 [] \<Rightarrow> [0xFFFD]
               | ch3 # s3 \<Rightarrow>
                  if \<not> is_cont ch3 then 0xFFFD # utf8_decode s2
                  else
                    (case s3 of
                       [] \<Rightarrow> [0xFFFD]
                     | ch4 # s4 \<Rightarrow>
                        if \<not> is_cont ch4 then 0xFFFD # utf8_decode s3
                        else ((ch - 0xF0) * 0x40000 + (ch2 - 0x80) * 0x1000
                              + (ch3 - 0x80) * 0x40 + (ch4 - 0x80))
                             # utf8_decode s4)))
      else 0xFFFD # utf8_decode s)"

definition is_ascii :: "nat \<Rightarrow> bool" where
  "is_ascii c \<longleftrightarrow> c < 0x80"

function generate_unquoted_parts :: "pystr \<Rightarrow> pystr" where
  "generate_unquoted_parts [] = []"
| "generate_unquoted_parts (c # s) =
     (if is_ascii c
      then utf8_decode (unquote_to_bytes (takeWhile is_ascii (c # s)))
           @ generate_unquoted_parts (dropWhile is_ascii s)
      else c # generate_unquoted_parts s)"
  by pat_completeness auto
termination
  by (relation "measure length") (auto simp: length_dropWhile_le less_Suc_eq_le)

definition unquote :: "pystr \<Rightarrow> pystr" where
  "unquote s = (if 0x25 \<notin> set s then s else generate_unquoted_parts s)"

section \<open>The identifier resolver (\<^verbatim>\<open>src/api/app.py\<close>)\<close>

datatype py_error = ValueError pystr | IndexError

text \<open>The character class \<^verbatim>\<open>[A-Za-z0-9_ .-]\<close>.\<close>

definition safe_char :: "nat \<Rightarrow> bool" where
  "safe_char c \<longleftrightarrow>
     (0x41 \<le> c \<and> c \<le> 0x5A) \<or> (0x61 \<le> c \<and> c \<le> 0x7A) \<or> (0x30 \<le> c \<and> c \<le> 0x39) \<or>
     c = 0x5F \<or> c = 0x20 \<or> c = 0x2E \<or> c = 0x2D"

text \<open>
  \<^verbatim>\<open>SAFE_NAME_RE.match(full)\<close> for \<^verbatim>\<open>^[A-Za-z0-9_ .-]+$\<close>: one or more characters of the
  class, then \<^verbatim>\<open>$\<close>, which Python's \<^verbatim>\<open>re\<close> matches at the end of the string and also just
  before a line feed that ends the string.
\<close>

definition SAFE_NAME_RE_match :: "pystr \<Rightarrow> bool" where
  "SAFE_NAME_RE_match full \<longleftrightarrow>
     takeWhile safe_char full \<noteq> [] \<and>
     (dropWhile safe_char full = [] \<or> dropWhile safe_char full = [0x0A])"

text \<open>\<^verbatim>\<open>full.split(".", 1)\<close> on a string that contains a dot.\<close>

definition split_dot :: "pystr \<Rightarrow> pystr \<times> pystr" where
  "split_dot full = (takeWhile (\<lambda>c. c \<noteq> 0x2E) full, tl (dropWhile (\<lambda>c. c \<noteq> 0x2E) full))"

definition msg_bad_format :: pystr where
  "msg_bad_format = py ''table '' @ [0x540D, 0x7A31, 0x683C, 0x5F0F, 0x4E0D, 0x5408, 0x6CD5]"

definition msg_empty_part :: pystr where
  "msg_empty_part = py ''schema/table '' @ [0x4E0D, 0x53EF, 0x70BA, 0x7A7A]"

definition parse_schema_table :: "pystr \<Rightarrow> py_error + (pystr \<times> pystr)" where
  "parse_schema_table raw =
     (let full = strip raw;
          full = unquote full
      in if \<not> SAFE_NAME_RE_match full then Inl (ValueError msg_bad_format)
         else
           let (schema, table) = (if 0x2E \<in> set full then split_dot full else (py ''dbo'', full));
               schema = strip schema;
               table = strip table
           in if schema = [] \<or> table = [] then Inl (ValueError msg_empty_part)
              else Inr (schema, table))"

section \<open>The database boundary\<close>

text \<open>
  The driver is outside the program. A database answers a query text with its bound
  parameters either by raising an error (\<open>Inl\<close>, with the engine's message) or with a
  result: \<open>read_sql\<close> stands for \<^verbatim>\<open>pd.read_sql\<close> on the column-comment query, whose rows
  are a column name and the cell of its comment; \<open>execute\<close> stands for running a statement and
  reading \<^verbatim>\<open>keys()\<close> and \<^verbatim>\<open>fetchall()\<close>. Every call a handler issues is appended
  to a trace, which is threaded through the handlers.
\<close>

type_synonym params = "(pystr \<times> pystr) list"

text \<open>
  A cell of the \<^verbatim>\<open>column_comment\<close> column of the data frame, as \<^verbatim>\<open>row["column_comment"]\<close>
  reads it: a string, or what stands for an SQL \<^verbatim>\<open>NULL\<close>, which is \<^verbatim>\<open>None\<close> in a column
  of objects and the float \<^verbatim>\<open>nan\<close> in a column of strings. \<open>truthy\<close> is the truth value
  Python gives the cell (\<^verbatim>\<open>nan\<close> is a float other than zero, so it is true), \<open>py_str\<close> is
  \<^verbatim>\<open>str(cell)\<close>.
\<close>

datatype frame_cell = CellNone | CellNaN | CellStr pystr

fun truthy :: "frame_cell \<Rightarrow> bool" where
  "truthy CellNone = False"
| "truthy CellNaN = True"
| "truthy (CellStr s) = (s \<noteq> [])"

fun py_str :: "frame_cell \<Rightarrow> pystr" where
  "py_str CellNone = py ''None''"
| "py_str CellNaN = py ''nan''"
| "py_str (CellStr s) = s"

datatype db_call = ReadSql pystr params | Execute pystr params

record 'v database =
  read_sql :: "pystr \<Rightarrow> params \<Rightarrow> pystr + (pystr \<times> frame_cell) list"
  execute :: "pystr \<Rightarrow> params \<Rightarrow> pystr + (pystr list \<times> 'v list list)"

datatype exn = Raised py_error | DatabaseError pystr

datatype http_error = HTTPException int pystr | Unhandled exn

section \<open>Column comments (\<^verbatim>\<open>fetch_table_comments\<close>)\<close>

definition COMMENTS_SQL :: pystr where
  "COMMENTS_SQL = py
     (''\<newline>    SELECT\<newline>        c.name AS column_name,\<newline>'' @
      ''        CAST(ep.value AS NVARCHAR(4000)) AS column_comment\<newline>'' @
      ''    FROM sys.columns c\<newline>'' @
      ''    INNER JOIN sys.objects o ON c.object_id = o.object_id\<newline>'' @
      ''    INNER JOIN sys.schemas s ON o.schema_id = s.schema_id\<newline>'' @
      ''    LEFT JOIN sys.extended_properties ep\<newline>'' @
      ''        ON ep.major_id = c.object_id\<newline>'' @
      ''        AND ep.minor_id = c.column_id\<newline>'' @
      ''        AND ep.name = 'MS_Description'\<newline>'' @
      ''    WHERE s.name = :schema AND o.name = :table\<newline>'' @
      ''    ORDER BY c.column_id\<newline>    '')"

text \<open>
  One turn of the loop over the rows of the data frame:
  \<^verbatim>\<open>if row["column_comment"] and str(row["column_comment"]).strip():\<close>
  \<^verbatim>\<open>mapping[str(row["column_name"])] = str(row["column_comment"]).strip()\<close>.
\<close>

fun comment_step :: "(pystr \<rightharpoonup> pystr) \<Rightarrow> pystr \<times> frame_cell \<Rightarrow> (pystr \<rightharpoonup> pystr)" where
  "comment_step mapping (column_name, column_comment) =
     (if truthy column_comment \<and> strip (py_str column_comment) \<noteq> []
      then mapping(column_name \<mapsto> strip (py_str column_comment))
      else mapping)"

definition comments_of_rows :: "(pystr \<times> frame_cell) list \<Rightarrow> (pystr \<rightharpoonup> pystr)" where
  "comments_of_rows df = foldl comment_step Map.empty df"

definition comment_params :: "pystr \<Rightarrow> pystr \<Rightarrow> params" where
  "comment_params schema table = [(py ''schema'', schema), (py ''table'', table)]"

definition fetch_table_comments ::
  "'v database \<Rightarrow> db_call list \<Rightarrow> pystr \<Rightarrow> pystr \<Rightarrow> (exn + (pystr \<rightharpoonup> pystr)) \<times> db_call list" where
  "fetch_table_comments db tr schema table =
     (let ps = comment_params schema table;
          tr' = tr @ [ReadSql COMMENTS_SQL ps]
      in case read_sql db COMMENTS_SQL ps of
           Inl msg \<Rightarrow> (Inl (DatabaseError msg), tr')
         | Inr df \<Rightarrow> (Inr (comments_of_rows df), tr'))"

section \<open>The row-fetch endpoint (\<^verbatim>\<open>read_table\<close>)\<close>

text \<open>\<^verbatim>\<open>str(n)\<close> of an integer, as the f-string writes the limit.\<close>

function str_nat :: "nat \<Rightarrow> pystr" where
  "str_nat n = (if n < 10 then [0x30 + n] else str_nat (n div 10) @ [0x30 + n mod 10])"
  by pat_completeness auto
termination
  by (relation "measure id") auto

declare str_nat.simps [simp del]

definition str_int :: "int \<Rightarrow> pystr" where
  "str_int i = (if i < 0 then 0x2D # str_nat (nat (- i)) else str_nat (nat i))"

text \<open>
  The query text of the row fetch. Only the limit is written into the text; schema and
  table appear as the bind names \<^verbatim>\<open>:schema\<close> and \<^verbatim>\<open>:table\<close>.
\<close>

definition row_sql :: "int \<Rightarrow> pystr" where
  "row_sql limit =
     py (''\<newline>    DECLARE @sql NVARCHAR(MAX) =\<newline>'' @
         ''        N'SELECT TOP ('') @
     str_int limit @
     py ('') * FROM ' + QUOTENAME(:schema) + N'.' + QUOTENAME(:table) + N'' @
         [CHR 0x27, CHR 0x27] @ '';\<newline>'' @
         ''    EXEC sp_executesql @sql, N'@schema sysname, @table sysname', '' @
         ''@schema=:schema, @table=:table;\<newline>    '')"

definition msg_limit :: pystr where
  "msg_limit = py ''limit '' @ [0x9700, 0x4ECB, 0x65BC] @ py '' 1~5000''"

text \<open>\<^verbatim>\<open>d.get(k, default)\<close>.\<close>

definition dict_get :: "('k \<rightharpoonup> 'a) \<Rightarrow> 'k \<Rightarrow> 'a \<Rightarrow> 'a" where
  "dict_get d k dflt = (case d k of None \<Rightarrow> dflt | Some v \<Rightarrow> v)"

definition display_cols :: "(pystr \<rightharpoonup> pystr) \<Rightarrow> pystr list \<Rightarrow> pystr list" where
  "display_cols comment_map cols = map (\<lambda>c. dict_get comment_map c c) cols"

text \<open>
  The inner loop \<^verbatim>\<open>for i, c in enumerate(display_cols): d[c] = row[i]\<close>; reading a row
  beyond its length raises \<^verbatim>\<open>IndexError\<close>.
\<close>

fun out_row_loop :: "(nat \<times> pystr) list \<Rightarrow> 'v list \<Rightarrow> (pystr \<rightharpoonup> 'v) \<Rightarrow> py_error + (pystr \<rightharpoonup> 'v)" where
  "out_row_loop [] row d = Inr d"
| "out_row_loop ((i, c) # ics) row d =
     (if i < length row then out_row_loop ics row (d(c \<mapsto> row ! i)) else Inl IndexError)"

definition out_row :: "pystr list \<Rightarrow> 'v list \<Rightarrow> py_error + (pystr \<rightharpoonup> 'v)" where
  "out_row dcols row = out_row_loop (enumerate 0 dcols) row Map.empty"

fun out_rows_loop ::
  "pystr list \<Rightarrow> 'v list list \<Rightarrow> (pystr \<rightharpoonup> 'v) list \<Rightarrow> py_error + (pystr \<rightharpoonup> 'v) list" where
  "out_rows_loop dcols [] out_rows = Inr out_rows"
| "out_rows_loop dcols (row # rows) out_rows =
     (case out_row dcols row of
        Inl e \<Rightarrow> Inl e
      | Inr d \<Rightarrow> out_rows_loop dcols rows (out_rows @ [d]))"

text \<open>The JSON object \<^verbatim>\<open>{"table": ..., "columns": ..., "rows": ...}\<close> of the reply.\<close>

record 'v response =
  resp_table :: pystr
  resp_columns :: "pystr list"
  resp_rows :: "(pystr \<rightharpoonup> 'v) list"

definition read_table ::
  "'v database \<Rightarrow> db_call list \<Rightarrow> pystr \<Rightarrow> int option \<Rightarrow> (http_error + 'v response) \<times> db_call list" where
  "read_table db tr table_full limit_param =
     (let limit = (case limit_param of None \<Rightarrow> 100 | Some l \<Rightarrow> l)
      in if limit < 1 \<or> limit > 5000 then (Inl (HTTPException 400 msg_limit), tr)
         else
           case parse_schema_table table_full of
             Inl (ValueError e) \<Rightarrow> (Inl (HTTPException 400 e), tr)
           | Inl IndexError \<Rightarrow> (Inl (Unhandled (Raised IndexError)), tr)
           | Inr (schema, tbl) \<Rightarrow>
              (case fetch_table_comments db tr schema tbl of
                 (Inl e, tr1) \<Rightarrow> (Inl (Unhandled e), tr1)
               | (Inr comment_map, tr1) \<Rightarrow>
                  let sql = row_sql limit;
                      ps = comment_params schema tbl;
                      tr2 = tr1 @ [Execute sql ps]
                  in case execute db sql ps of
                       Inl msg \<Rightarrow> (Inl (Unhandled (DatabaseError msg)), tr2)
                     | Inr (cols, rws) \<Rightarrow>
                        let dcols = display_cols comment_map cols
                        in case out_rows_loop dcols rws [] of
                             Inl e \<Rightarrow> (Inl (Unhandled (Raised e)), tr2)
                           | Inr out_rows \<Rightarrow>
                              (Inr \<lparr>resp_table = schema @ py ''.'' @ tbl,
                                    resp_columns = dcols,
                                    resp_rows = out_rows\<rparr>, tr2)))"

section \<open>The static-dictionary variant (\<^verbatim>\<open>src/api/main.py\<close>)\<close>

definition COLUMN_NAME_MAP :: "pystr \<rightharpoonup> (pystr \<rightharpoonup> pystr)" where
  "COLUMN_NAME_MAP = map_of
     [(py ''Orders'', map_of [
          (py ''OrderID'', [0x8A02, 0x55AE, 0x7DE8, 0x865F]),
          (py ''CustomerID'', [0x5BA2, 0x6236, 0x4EE3, 0x78BC]),
          (py ''EmployeeID'', [0x54E1, 0x5DE5, 0x7DE8, 0x865F]),
          (py ''OrderDate'', [0x8A02, 0x55AE, 0x65E5, 0x671F]),
          (py ''RequiredDate'', [0x9700, 0x6C42, 0x65E5, 0x671F]),
          (py ''ShippedDate'', [0x51FA, 0x8CA8, 0x65E5, 0x671F]),
          (py ''ShipVia'', [0x904B, 0x9001, 0x65B9, 0x5F0F]),
          (py ''Freight'', [0x904B, 0x8CBB]),
          (py ''ShipName'', [0x6536, 0x8CA8, 0x4EBA]),
          (py ''ShipAddress'', [0x6536, 0x8CA8, 0x5730, 0x5740]),
          (py ''ShipCity'', [0x6536, 0x8CA8, 0x57CE, 0x5E02]),
          (py ''ShipRegion'', [0x6536, 0x8CA8, 0x5730, 0x5340]),
          (py ''ShipPostalCode'', [0x90F5, 0x905E, 0x5340, 0x865F]),
          (py ''ShipCountry'', [0x6536, 0x8CA8, 0x570B, 0x5BB6])]),
      (py ''Order Details'', map_of [
          (py ''OrderID'', [0x8A02, 0x55AE, 0x7DE8, 0x865F]),
          (py ''ProductID'', [0x7522, 0x54C1, 0x7DE8, 0x865F]),
          (py ''UnitPrice'', [0x55AE, 0x50F9]),
          (py ''Quantity'', [0x6578, 0x91CF]),
          (py ''Discount'', [0x6298, 0x6263])]),
      (py ''Customers'', map_of [
          (py ''CustomerID'', [0x5BA2, 0x6236, 0x4EE3, 0x78BC]),
          (py ''CompanyName'', [0x516C, 0x53F8, 0x540D, 0x7A31]),
          (py ''ContactName'', [0x806F, 0x7D61, 0x4EBA]),
          (py ''ContactTitle'', [0x8077, 0x7A31]),
          (py ''Address'', [0x5730, 0x5740]),
          (py ''City'', [0x57CE, 0x5E02]),
          (py ''Region'', [0x5730, 0x5340]),
          (py ''PostalCode'', [0x90F5, 0x905E, 0x5340, 0x865F]),
          (py ''Country'', [0x570B, 0x5BB6]),
          (py ''Phone'', [0x96FB, 0x8A71]),
          (py ''Fax'', [0x50B3, 0x771F])]),
      (py ''Employees'', map_of [
          (py ''EmployeeID'', [0x54E1, 0x5DE5, 0x7DE8, 0x865F]),
          (py ''LastName'', [0x59D3]),
          (py ''FirstName'', [0x540D]),
          (py ''Title'', [0x8077, 0x7A31]),
          (py ''TitleOfCourtesy'', [0x7A31, 0x8B02]),
          (py ''BirthDate'', [0x751F, 0x65E5]),
          (py ''HireDate'', [0x5230, 0x8077, 0x65E5]),
          (py ''Address'', [0x5730, 0x5740]),
          (py ''City'', [0x57CE, 0x5E02]),
          (py ''Region'', [0x5730, 0x5340]),
          (py ''PostalCode'', [0x90F5, 0x905E, 0x5340, 0x865F]),
          (py ''Country'', [0x570B, 0x5BB6]),
          (py ''HomePhone'', [0x4F4F, 0x5BB6, 0x96FB, 0x8A71]),
          (py ''Extension'', [0x5206, 0x6A5F]),
          (py ''Notes'', [0x5099, 0x8A3B])]),
      (py ''Products'', map_of [
          (py ''ProductID'', [0x7522, 0x54C1, 0x7DE8, 0x865F]),
          (py ''ProductName'', [0x7522, 0x54C1, 0x540D, 0x7A31]),
          (py ''SupplierID'', [0x4F9B, 0x61C9, 0x5546, 0x7DE8, 0x865F]),
          (py ''CategoryID'', [0x7522, 0x54C1, 0x985E, 0x5225]),
          (py ''QuantityPerUnit'', [0x5305, 0x88DD, 0x898F, 0x683C]),
          (py ''UnitPrice'', [0x55AE, 0x50F9]),
          (py ''UnitsInStock'', [0x5EAB, 0x5B58, 0x6578, 0x91CF]),
          (py ''UnitsOnOrder'', [0x8A02, 0x8CFC, 0x4E2D, 0x6578, 0x91CF]),
          (py ''ReorderLevel'', [0x88DC, 0x8CA8, 0x6C34, 0x4F4D]),
          (py ''Discontinued'', [0x662F, 0x5426, 0x505C, 0x552E])]),
      (py ''Categories'', map_of [
          (py ''CategoryID'', [0x985E, 0x5225, 0x7DE8, 0x865F]),
          (py ''CategoryName'', [0x985E, 0x5225, 0x540D, 0x7A31]),
          (py ''Description'', [0x985E, 0x5225, 0x8AAA, 0x660E])]),
      (py ''Suppliers'', map_of [
          (py ''SupplierID'', [0x4F9B, 0x61C9, 0x5546, 0x7DE8, 0x865F]),
          (py ''CompanyName'', [0x516C, 0x53F8, 0x540D, 0x7A31]),
          (py ''ContactName'', [0x806F, 0x7D61, 0x4EBA]),
          (py ''ContactTitle'', [0x8077, 0x7A31]),
          (py ''Address'', [0x5730, 0x5740]),
          (py ''City'', [0x57CE, 0x5E02]),
          (py ''Region'', [0x5730, 0x5340]),
          (py ''PostalCode'', [0x90F5, 0x905E, 0x5340, 0x865F]),
          (py ''Country'', [0x570B, 0x5BB6]),
          (py ''Phone'', [0x96FB, 0x8A71]),
          (py ''Fax'', [0x50B3, 0x771F]),
          (py ''HomePage'', [0x516C, 0x53F8, 0x7DB2, 0x7AD9])]),
      (py ''Shippers'', map_of [
          (py ''ShipperID'', [0x8CA8, 0x904B, 0x5546, 0x7DE8, 0x865F]),
          (py ''CompanyName'', [0x8CA8, 0x904B, 0x516C, 0x53F8]),
          (py ''Phone'', [0x96FB, 0x8A71])])]"

text \<open>
  The inner loop of \<^verbatim>\<open>run_query\<close>:
  \<^verbatim>\<open>for col, val in zip(columns, row): item[col_map.get(col, col)] = val\<close>.
\<close>

fun item_loop :: "(pystr \<rightharpoonup> pystr) \<Rightarrow> (pystr \<times> 'v) list \<Rightarrow> (pystr \<rightharpoonup> 'v) \<Rightarrow> (pystr \<rightharpoonup> 'v)" where
  "item_loop col_map [] item = item"
| "item_loop col_map ((col, val) # cvs) item =
     (let zh_col = dict_get col_map col col
      in item_loop col_map cvs (item(zh_col \<mapsto> val)))"

fun result_loop ::
  "(pystr \<rightharpoonup> pystr) \<Rightarrow> pystr list \<Rightarrow> 'v list list \<Rightarrow> (pystr \<rightharpoonup> 'v) list \<Rightarrow> (pystr \<rightharpoonup> 'v) list" where
  "result_loop col_map columns [] result = result"
| "result_loop col_map columns (row # rows) result =
     result_loop col_map columns rows (result @ [item_loop col_map (zip columns row) Map.empty])"

definition run_query ::
  "'v database \<Rightarrow> db_call list \<Rightarrow> pystr \<Rightarrow> pystr option \<Rightarrow> (exn + (pystr \<rightharpoonup> 'v) list) \<times> db_call list" where
  "run_query db tr sql table_name =
     (let tr' = tr @ [Execute sql []]
      in case execute db sql [] of
           Inl msg \<Rightarrow> (Inl (DatabaseError msg), tr')
         | Inr (columns, rws) \<Rightarrow>
            let col_map = (case table_name of
                             None \<Rightarrow> Map.empty
                           | Some t \<Rightarrow> dict_get COLUMN_NAME_MAP t Map.empty)
            in (Inr (result_loop col_map columns rws []), tr'))"

text \<open>The f-string \<^verbatim>\<open>f"SELECT TOP 100 * FROM dbo.[{table}]"\<close>.\<close>

definition get_table_data_sql :: "pystr \<Rightarrow> pystr" where
  "get_table_data_sql tbl = py ''SELECT TOP 100 * FROM dbo.['' @ tbl @ py '']''"

definition get_table_data ::
  "'v database \<Rightarrow> db_call list \<Rightarrow> pystr \<Rightarrow> (exn + (pystr \<rightharpoonup> 'v) list) \<times> db_call list" where
  "get_table_data db tr tbl = run_query db tr (get_table_data_sql tbl) (Some tbl)"

section \<open>Example databases\<close>

datatype cell = SqlNull | SqlInt int | SqlStr pystr

text \<open>
  A database with one table \<^verbatim>\<open>dbo.Orders\<close> of three columns: the first has a comment,
  the second has none, the comment of the third is padded with spaces. The comment that is
  \<^verbatim>\<open>NULL\<close> arrives as \<^verbatim>\<open>None\<close>.
\<close>

definition orders_db :: "cell database" where
  "orders_db =
     \<lparr>read_sql = (\<lambda>sql ps.
         if ps = comment_params (py ''dbo'') (py ''Orders'')
         then Inr [(py ''OrderID'', CellStr [0x8A02, 0x55AE, 0x7DE8, 0x865F]),
                   (py ''CustomerID'', CellNone),
                   (py ''Freight'', CellStr [0x20, 0x904B, 0x8CBB, 0x20])]
         else Inr []),
      execute = (\<lambda>sql ps.
         if ps = comment_params (py ''dbo'') (py ''Orders'')
         then Inr ([py ''OrderID'', py ''CustomerID'', py ''Freight''],
                   [[SqlInt 10248, SqlStr (py ''VINET''), SqlInt 32],
                    [SqlInt 10249, SqlStr (py ''TOMSP''), SqlInt 11]])
         else Inl (py ''Invalid object name''))\<rparr>"

text \<open>
  The same table read into a column of strings: the comment that is \<^verbatim>\<open>NULL\<close> arrives as
  \<^verbatim>\<open>nan\<close>.
\<close>

definition orders_nan_db :: "cell database" where
  "orders_nan_db =
     \<lparr>read_sql = (\<lambda>sql ps.
         if ps = comment_params (py ''dbo'') (py ''Orders'')
         then Inr [(py ''OrderID'', CellStr [0x8A02, 0x55AE, 0x7DE8, 0x865F]),
                   (py ''CustomerID'', CellNaN),
                   (py ''Freight'', CellStr [0x20, 0x904B, 0x8CBB, 0x20])]
         else Inr []),
      execute = execute orders_db\<rparr>"

text \<open>The same table on a server whose catalog cannot be read.\<close>

definition no_catalog_db :: "cell database" where
  "no_catalog_db =
     \<lparr>read_sql = (\<lambda>sql ps. Inl (py ''permission denied'')),
      execute = execute orders_db\<rparr>"

text \<open>A table none of whose columns has a comment: every cell is \<^verbatim>\<open>None\<close>.\<close>

definition plain_db :: "cell database" where
  "plain_db =
     \<lparr>read_sql = (\<lambda>sql ps. Inr [(py ''OrderID'', CellNone), (py ''CustomerID'', CellNone),
                                   (py ''Freight'', CellNone)]),
      execute = (\<lambda>sql ps. Inr ([py ''OrderID'', py ''CustomerID'', py ''Freight''],
                                 [[SqlInt 10248, SqlStr (py ''VINET''), SqlInt 32]]))\<rparr>"

section \<open>Lemmas on strings\<close>

lemma unquote_no_percent: "0x25 \<notin> set s \<Longrightarrow> unquote s = s"
  by (simp add: unquote_def)

lemma set_lstrip: "set (lstrip s) \<subseteq> set s"
  unfolding lstrip_def by (auto dest: set_dropWhileD)

lemma set_rstrip: "set (rstrip s) \<subseteq> set s"
  unfolding rstrip_def by (auto dest: set_dropWhileD)

lemma set_strip: "set (strip s) \<subseteq> set s"
  unfolding strip_def using set_lstrip set_rstrip by blast

lemma lstrip_around: "\<not> isspace c \<Longrightarrow> lstrip (a @ c # b) = lstrip a @ c # b"
  by (simp add: lstrip_def dropWhile_append3)

lemma rstrip_around: "\<not> isspace c \<Longrightarrow> rstrip (a @ c # b) = a @ c # rstrip b"
  by (simp add: rstrip_def dropWhile_append3)

lemma strip_around: "\<not> isspace c \<Longrightarrow> strip (a @ c # b) = lstrip a @ c # rstrip b"
  by (simp add: strip_def lstrip_around rstrip_around)

lemma lstrip_idem: "lstrip (lstrip s) = lstrip s"
  by (simp add: lstrip_def)

lemma rstrip_idem: "rstrip (rstrip s) = rstrip s"
  by (simp add: rstrip_def)

lemma lstrip_all_space: "\<forall>c\<in>set s. isspace c \<Longrightarrow> lstrip s = []"
  by (simp add: lstrip_def)

lemma rstrip_all_space: "\<forall>c\<in>set s. isspace c \<Longrightarrow> rstrip s = []"
  by (simp add: rstrip_def)

lemma lstrip_rstrip_commute: "lstrip (rstrip s) = rstrip (lstrip s)"
proof (cases "\<forall>c\<in>set s. isspace c")
  case True
  have "lstrip [] = []" and "rstrip [] = []"
    by (simp_all add: lstrip_def rstrip_def)
  then show ?thesis
    using True by (simp add: lstrip_all_space rstrip_all_space)
next
  case False
  then obtain y ys where d: "dropWhile isspace s = y # ys"
    by (cases "dropWhile isspace s") auto
  then have y: "\<not> isspace y"
    by (metis hd_dropWhile list.distinct(1) list.sel(1))
  have s: "s = takeWhile isspace s @ y # ys"
    using d by (metis takeWhile_dropWhile_id)
  have "rstrip s = takeWhile isspace s @ y # rstrip ys"
    using rstrip_around [OF y, of "takeWhile isspace s" ys] s by simp
  then have "lstrip (rstrip s) = y # rstrip ys"
    using lstrip_around [OF y, of "takeWhile isspace s" "rstrip ys"]
    by (auto simp: lstrip_def dest: set_takeWhileD)
  moreover have "rstrip (lstrip s) = y # rstrip ys"
    using rstrip_around [OF y, of "[]" ys] d by (simp add: lstrip_def)
  ultimately show ?thesis by simp
qed

lemma strip_idem: "strip (strip s) = strip s"
  by (simp add: strip_def lstrip_rstrip_commute rstrip_idem lstrip_idem)

lemma strip_lstrip: "strip (lstrip s) = strip s"
  by (simp add: strip_def lstrip_idem)

lemma strip_rstrip: "strip (rstrip s) = strip s"
  by (simp add: strip_def lstrip_rstrip_commute rstrip_idem)

lemma strip_snoc_space: "isspace c \<Longrightarrow> strip (s @ [c]) = strip s"
proof -
  assume c: "isspace c"
  have "rstrip (s @ [c]) = rstrip s"
    using c by (simp add: rstrip_def)
  then have "strip (rstrip (s @ [c])) = strip (rstrip s)" by simp
  then show ?thesis by (simp add: strip_rstrip)
qed

lemma strip_no_padding:
  assumes "strip c \<noteq> []"
  shows "\<not> isspace (hd (strip c)) \<and> \<not> isspace (last (strip c))"
proof -
  have l: "lstrip c \<noteq> []"
    using assms by (auto simp: strip_def rstrip_def)
  have "\<not> isspace (hd (lstrip c))"
    using l unfolding lstrip_def by (rule hd_dropWhile)
  then have "\<not> isspace (hd (rstrip (lstrip c)))"
    using l rstrip_around [of "hd (lstrip c)" "[]" "tl (lstrip c)"] by simp
  moreover have "\<not> isspace (last (strip c))"
  proof -
    have ne: "dropWhile isspace (rev (lstrip c)) \<noteq> []"
      using assms by (simp add: strip_def rstrip_def)
    have "\<not> isspace (hd (dropWhile isspace (rev (lstrip c))))"
      using ne by (rule hd_dropWhile)
    then show ?thesis
      using ne by (simp add: strip_def rstrip_def last_rev)
  qed
  ultimately show ?thesis by (simp add: strip_def)
qed

lemma split_dot_around:
  "0x2E \<notin> set a \<Longrightarrow> split_dot (a @ 0x2E # b) = (a, b)"
  by (induction a) (auto simp: split_dot_def)

lemma dot_decompose:
  "0x2E \<in> set s \<Longrightarrow> s = fst (split_dot s) @ 0x2E # snd (split_dot s) \<and> 0x2E \<notin> set (fst (split_dot s))"
proof -
  assume d: "0x2E \<in> set s"
  let ?P = "\<lambda>c::nat. c \<noteq> 0x2E"
  have ne: "dropWhile ?P s \<noteq> []" using d by (simp add: dropWhile_eq_Nil_conv)
  have "hd (dropWhile ?P s) = 0x2E" using hd_dropWhile [OF ne] by simp
  then have "dropWhile ?P s = 0x2E # tl (dropWhile ?P s)"
    using ne by (metis list.collapse)
  then have "s = takeWhile ?P s @ 0x2E # tl (dropWhile ?P s)"
    by (metis takeWhile_dropWhile_id)
  moreover have "0x2E \<notin> set (takeWhile ?P s)"
    by (auto dest: set_takeWhileD)
  ultimately show ?thesis by (simp add: split_dot_def)
qed

lemma not_isspace_dot: "\<not> isspace 0x2E"
  by (simp add: isspace_def)

lemma isspace_newline: "isspace 0x0A"
  by (simp add: isspace_def)

lemma safe_char_not_percent: "safe_char c \<Longrightarrow> c \<noteq> 0x25"
  by (auto simp: safe_char_def)

lemma SAFE_NAME_RE_match_all_safe:
  "s \<noteq> [] \<Longrightarrow> \<forall>c\<in>set s. safe_char c \<Longrightarrow> SAFE_NAME_RE_match s"
  by (cases s) (auto simp: SAFE_NAME_RE_match_def)

lemma SAFE_NAME_RE_match_cases:
  assumes "SAFE_NAME_RE_match s"
  obtains "\<forall>c\<in>set s. safe_char c" | b where "s = b @ [0x0A]" and "\<forall>c\<in>set b. safe_char c"
proof -
  have s: "s = takeWhile safe_char s @ dropWhile safe_char s" by simp
  have tw: "\<forall>c\<in>set (takeWhile safe_char s). safe_char c"
    by (auto dest: set_takeWhileD)
  from assms consider "dropWhile safe_char s = []" | "dropWhile safe_char s = [0x0A]"
    by (auto simp: SAFE_NAME_RE_match_def)
  then show thesis
  proof cases
    case 1
    then have "\<forall>c\<in>set s. safe_char c" by (simp add: dropWhile_eq_Nil_conv)
    then show thesis by (rule that(1))
  next
    case 2
    then have "s = takeWhile safe_char s @ [0x0A]" using s by metis
    then show thesis using tw by (rule that(2))
  qed
qed

lemma SAFE_NAME_RE_match_strip_safe:
  assumes "SAFE_NAME_RE_match s"
  shows "\<forall>c\<in>set (strip s). safe_char c"
  using assms
proof (cases rule: SAFE_NAME_RE_match_cases)
  case 1
  then show ?thesis using set_strip by blast
next
  case (2 b)
  then have "strip s = strip b" by (simp add: strip_snoc_space isspace_newline)
  then show ?thesis using 2 set_strip by fastforce
qed

lemma unquote_strip_safe:
  assumes "SAFE_NAME_RE_match s"
  shows "unquote (strip s) = strip s"
proof -
  have "0x25 \<notin> set (strip s)"
    using SAFE_NAME_RE_match_strip_safe [OF assms] safe_char_not_percent by blast
  then show ?thesis by (rule unquote_no_percent)
qed

lemma strip_py_dbo: "strip (py ''dbo'') = py ''dbo''"
  by (simp add: strip_def lstrip_def rstrip_def isspace_def py_def)

text \<open>
  The definitions that evaluate a concrete string.
\<close>

lemmas str_defs = py_def strip_def lstrip_def rstrip_def isspace_def unquote_def is_ascii_def
  hexval_def is_cont_def SAFE_NAME_RE_match_def safe_char_def split_dot_def

lemma parse_orders_newline:
  "parse_schema_table (py ''Orders%0A'') = Inr (py ''dbo'', py ''Orders'')"
  by (simp add: parse_schema_table_def str_defs)

lemma unquote_orders_newline:
  "unquote (strip (py ''Orders%0A'')) = py ''Orders'' @ [0x0A]"
  by (simp add: str_defs)

lemma parse_dbo_orders:
  "parse_schema_table (py ''dbo.Orders'') = Inr (py ''dbo'', py ''Orders'')"
  by (simp add: parse_schema_table_def str_defs)

text \<open>
  A character outside the class other than the line feed is always refused.
\<close>

lemma parse_schema_table_rejects:
  assumes "c \<in> set (unquote (strip raw))" and "\<not> safe_char c" and "c \<noteq> 0x0A"
  shows "parse_schema_table raw = Inl (ValueError msg_bad_format)"
proof -
  have "\<not> SAFE_NAME_RE_match (unquote (strip raw))"
  proof
    assume "SAFE_NAME_RE_match (unquote (strip raw))"
    then show False
      using assms by (cases rule: SAFE_NAME_RE_match_cases) auto
  qed
  then show ?thesis by (simp add: parse_schema_table_def)
qed

section \<open>Lemmas on the row dictionaries\<close>

text \<open>
  Both row loops build the dictionary \<open>map_of (rev (zip labels row))\<close>: of two columns with
  the same label, the later one stays.
\<close>

lemma out_row_loop_enumerate:
  "n + length cs \<le> length row \<Longrightarrow>
   out_row_loop (enumerate n cs) row d = Inr (d ++ map_of (rev (zip cs (drop n row))))"
proof (induction cs arbitrary: n d)
  case Nil
  then show ?case by simp
next
  case (Cons c cs)
  then have n: "n < length row" and le: "Suc n + length cs \<le> length row" by simp_all
  have dr: "drop n row = row ! n # drop (Suc n) row"
    using n by (simp add: Cons_nth_drop_Suc)
  have z: "zip (c # cs) (drop n row) = (c, row ! n) # zip cs (drop (Suc n) row)"
    by (subst dr) simp
  have m: "d(c \<mapsto> row ! n) ++ map_of (rev (zip cs (drop (Suc n) row))) =
           d ++ map_of (rev (zip (c # cs) (drop n row)))"
    unfolding z by (simp add: map_add_def fun_eq_iff split: option.splits)
  have step: "out_row_loop (enumerate n (c # cs)) row d =
        out_row_loop (enumerate (Suc n) cs) row (d(c \<mapsto> row ! n))"
    using n by simp
  have ih: "out_row_loop (enumerate (Suc n) cs) row (d(c \<mapsto> row ! n)) =
        Inr (d(c \<mapsto> row ! n) ++ map_of (rev (zip cs (drop (Suc n) row))))"
    by (rule Cons.IH [OF le])
  show ?case
    unfolding step ih m by (rule refl)
qed

lemma out_row_map_of:
  "length dcols \<le> length row \<Longrightarrow> out_row dcols row = Inr (map_of (rev (zip dcols row)))"
  using out_row_loop_enumerate [of 0 dcols row Map.empty] by (simp add: out_row_def)

lemma item_loop_map_of:
  "item_loop col_map cvs item =
     item ++ map_of (rev (map (\<lambda>(c, v). (dict_get col_map c c, v)) cvs))"
proof (induction cvs arbitrary: item)
  case Nil
  then show ?case by simp
next
  case (Cons cv cvs)
  obtain c v where cv: "cv = (c, v)" by (cases cv)
  have "item(dict_get col_map c c \<mapsto> v) ++
          map_of (rev (map (\<lambda>(c, v). (dict_get col_map c c, v)) cvs)) =
        item ++ map_of (rev (map (\<lambda>(c, v). (dict_get col_map c c, v)) ((c, v) # cvs)))"
    by (simp add: map_add_def fun_eq_iff split: option.splits)
  moreover have "item_loop col_map ((c, v) # cvs) item =
        item_loop col_map cvs (item(dict_get col_map c c \<mapsto> v))"
    by (simp add: Let_def)
  moreover have "item_loop col_map cvs (item(dict_get col_map c c \<mapsto> v)) =
        item(dict_get col_map c c \<mapsto> v) ++
          map_of (rev (map (\<lambda>(c, v). (dict_get col_map c c, v)) cvs))"
    by (rule Cons.IH)
  ultimately show ?case
    unfolding cv by (simp only:)
qed

lemma item_loop_display_cols:
  "item_loop col_map (zip cols row) Map.empty = map_of (rev (zip (display_cols col_map cols) row))"
proof -
  have "map (\<lambda>(c, v). (dict_get col_map c c, v)) (zip cols row) =
        zip (map (\<lambda>c. dict_get col_map c c) cols) row"
    by (simp add: zip_map1)
  then show ?thesis by (simp add: item_loop_map_of display_cols_def)
qed

lemma map_of_rev_last:
  "i < length kvs \<Longrightarrow> \<forall>j. i < j \<and> j < length kvs \<longrightarrow> fst (kvs ! j) \<noteq> fst (kvs ! i) \<Longrightarrow>
   map_of (rev kvs) (fst (kvs ! i)) = Some (snd (kvs ! i))"
proof (induction kvs rule: rev_induct)
  case Nil
  then show ?case by simp
next
  case (snoc x kvs)
  show ?case
  proof (cases "i = length kvs")
    case True
    then show ?thesis by (cases x) simp
  next
    case False
    then have i: "i < length kvs" using snoc.prems(1) by simp
    have later: "\<forall>j. i < j \<and> j < length kvs \<longrightarrow> fst (kvs ! j) \<noteq> fst (kvs ! i)"
    proof (intro allI impI)
      fix j assume j: "i < j \<and> j < length kvs"
      then have "fst ((kvs @ [x]) ! j) \<noteq> fst ((kvs @ [x]) ! i)"
        using snoc.prems(2) by simp
      then show "fst (kvs ! j) \<noteq> fst (kvs ! i)"
        using j i by (simp add: nth_append)
    qed
    have "fst ((kvs @ [x]) ! length kvs) \<noteq> fst ((kvs @ [x]) ! i)"
      using snoc.prems(2) [THEN spec, of "length kvs"] i by simp
    then have x: "fst x \<noteq> fst (kvs ! i)"
      using i by (simp add: nth_append)
    show ?thesis
      using snoc.IH [OF i later] x i by (cases x) (auto simp: nth_append)
  qed
qed

lemma map_of_rev_zip_last:
  assumes "i < length cs" and "length cs \<le> length vs"
      and "\<forall>j. i < j \<and> j < length cs \<longrightarrow> cs ! j \<noteq> cs ! i"
  shows "map_of (rev (zip cs vs)) (cs ! i) = Some (vs ! i)"
  using map_of_rev_last [of i "zip cs vs"] assms by simp

lemma dom_map_of_rev_zip:
  "length cs \<le> length vs \<Longrightarrow> dom (map_of (rev (zip cs vs))) = set cs"
  by (simp add: dom_map_of_conv_image_fst set_map [symmetric] map_fst_zip_take min_def
      del: set_map)

lemma out_rows_loop_map:
  "\<forall>row\<in>set rws. length dcols \<le> length row \<Longrightarrow>
   out_rows_loop dcols rws acc = Inr (acc @ map (\<lambda>row. map_of (rev (zip dcols row))) rws)"
  by (induction rws arbitrary: acc) (simp_all add: out_row_map_of)

lemma display_cols_empty: "display_cols Map.empty cols = cols"
  by (simp add: display_cols_def dict_get_def)

section \<open>Lemmas on the column comments\<close>

text \<open>Cells that are \<^verbatim>\<open>None\<close> or blank strings add nothing to the mapping.\<close>

lemma foldl_comment_step_blank:
  "\<forall>n c. (n, c) \<in> set df \<longrightarrow> c = CellNone \<or> (\<exists>s. c = CellStr s \<and> strip s = []) \<Longrightarrow>
   foldl comment_step m df = m"
proof (induction df arbitrary: m)
  case Nil
  then show ?case by simp
next
  case (Cons r df)
  obtain n c where r: "r = (n, c)" by (cases r)
  have "c = CellNone \<or> (\<exists>s. c = CellStr s \<and> strip s = [])"
    using Cons.prems unfolding r by simp
  then have "comment_step m r = m"
    unfolding r by auto
  moreover have "\<forall>n c. (n, c) \<in> set df \<longrightarrow> c = CellNone \<or> (\<exists>s. c = CellStr s \<and> strip s = [])"
    using Cons.prems by simp
  ultimately show ?case
    using Cons.IH by simp
qed

text \<open>
  Every label of the mapping comes from a cell that Python takes as true, and is the
  stripped \<^verbatim>\<open>str\<close> of that cell.
\<close>

lemma foldl_comment_step_Some:
  "foldl comment_step m df k = Some v \<Longrightarrow>
   m k = Some v \<or>
   (\<exists>c. (k, c) \<in> set df \<and> truthy c \<and> v = strip (py_str c) \<and> strip (py_str c) \<noteq> [])"
proof (induction df arbitrary: m)
  case Nil
  then show ?case by simp
next
  case (Cons r df)
  obtain n c where r: "r = (n, c)" by (cases r)
  from Cons.prems have "foldl comment_step (comment_step m r) df k = Some v" by simp
  from Cons.IH [OF this]
  consider "comment_step m r k = Some v"
    | "\<exists>c. (k, c) \<in> set df \<and> truthy c \<and> v = strip (py_str c) \<and> strip (py_str c) \<noteq> []"
    by blast
  then show ?case
  proof cases
    case 1
    then show ?thesis
      unfolding r by (auto split: if_splits)
  next
    case 2
    then show ?thesis by auto
  qed
qed

lemma comments_of_rows_labels:
  assumes "comments_of_rows df k = Some v"
  shows "v \<noteq> [] \<and> strip v = v \<and> \<not> isspace (hd v) \<and> \<not> isspace (last v) \<and>
         (\<exists>c. (k, c) \<in> set df \<and> truthy c \<and> v = strip (py_str c))"
proof -
  from assms obtain c where c: "(k, c) \<in> set df" "truthy c" "v = strip (py_str c)"
      "strip (py_str c) \<noteq> []"
    using foldl_comment_step_Some [of Map.empty df k v] by (auto simp: comments_of_rows_def)
  then show ?thesis
    using strip_idem [of "py_str c"] strip_no_padding [of "py_str c"] by auto
qed

section \<open>Lemmas on the endpoint\<close>

text \<open>
  The calls \<^verbatim>\<open>read_table\<close> issues: none, the comment query alone, or the comment query and
  the row query. Both carry schema and table as bound parameters; the text of the row query
  depends on the limit only.
\<close>

lemma read_table_calls:
  "snd (read_table db tr table_full limit) = tr \<or>
   (\<exists>schema tbl. parse_schema_table table_full = Inr (schema, tbl) \<and>
      (snd (read_table db tr table_full limit) =
         tr @ [ReadSql COMMENTS_SQL (comment_params schema tbl)] \<or>
       (\<exists>l. snd (read_table db tr table_full limit) =
         tr @ [ReadSql COMMENTS_SQL (comment_params schema tbl),
               Execute (row_sql l) (comment_params schema tbl)])))"
  by (auto simp: read_table_def fetch_table_comments_def Let_def
      split: sum.splits prod.splits py_error.splits option.splits)

text \<open>
  A refused identifier is answered with status 400 and no call is issued.
\<close>

lemma read_table_invalid_identifier:
  assumes "1 \<le> limit" and "limit \<le> 5000"
      and "parse_schema_table table_full = Inl (ValueError e)"
  shows "read_table db tr table_full (Some limit) = (Inl (HTTPException 400 e), tr)"
  using assms by (simp add: read_table_def)

text \<open>
  The reply to a request that passes both checks, when both database calls succeed and every
  row has a value for every column.
\<close>

lemma read_table_reply:
  assumes "1 \<le> limit" and "limit \<le> 5000"
      and "parse_schema_table table_full = Inr (schema, tbl)"
      and "read_sql db COMMENTS_SQL (comment_params schema tbl) = Inr df"
      and "execute db (row_sql limit) (comment_params schema tbl) = Inr (cols, rws)"
      and "\<forall>row\<in>set rws. length cols \<le> length row"
  shows "fst (read_table db tr table_full (Some limit)) =
           Inr \<lparr>resp_table = schema @ py ''.'' @ tbl,
                resp_columns = display_cols (comments_of_rows df) cols,
                resp_rows = map (\<lambda>row. map_of (rev (zip (display_cols (comments_of_rows df) cols) row)))
                              rws\<rparr>"
proof -
  let ?dcols = "display_cols (comments_of_rows df) cols"
  have f: "fetch_table_comments db tr schema tbl =
             (Inr (comments_of_rows df), tr @ [ReadSql COMMENTS_SQL (comment_params schema tbl)])"
    using assms(4) by (simp add: fetch_table_comments_def)
  have "\<forall>row\<in>set rws. length ?dcols \<le> length row"
    using assms(6) by (simp add: display_cols_def)
  then have o: "out_rows_loop ?dcols rws [] = Inr (map (\<lambda>row. map_of (rev (zip ?dcols row))) rws)"
    using out_rows_loop_map [of rws ?dcols "[]"] by simp
  show ?thesis
    using assms(1,2,3,5) f o by (simp add: read_table_def Let_def)
qed

section \<open>The claims\<close>

subsection \<open>C1: refused identifiers\<close>

text \<open>
  Claim C1 says that \<^verbatim>\<open>parse_schema_table\<close> fails, and no database call is made, whenever the
  trimmed and percent-decoded string holds a character outside \<^verbatim>\<open>[A-Za-z0-9_ .-]\<close>. The code
  does not do so on \<^verbatim>\<open>Orders%0A\<close>: the decoded string ends in a line feed, which is outside
  the class, yet \<^verbatim>\<open>$\<close> matches before it, the resolver returns \<^verbatim>\<open>("dbo", "Orders")\<close> and
  \<^verbatim>\<open>read_table\<close> issues its two database calls.
\<close>

theorem parse_schema_table_accepts_trailing_newline:
  "0x0A \<in> set (unquote (strip (py ''Orders%0A''))) \<and> \<not> safe_char 0x0A \<and>
   parse_schema_table (py ''Orders%0A'') = Inr (py ''dbo'', py ''Orders'') \<and>
   length (snd (read_table orders_db [] (py ''Orders%0A'') None)) = 2"
proof -
  have "0x0A \<in> set (unquote (strip (py ''Orders%0A'')))"
    by (simp add: unquote_orders_newline)
  moreover have "\<not> safe_char 0x0A"
    by (simp add: safe_char_def)
  moreover have "length (snd (read_table orders_db [] (py ''Orders%0A'') None)) = 2"
    by (simp add: read_table_def parse_orders_newline fetch_table_comments_def orders_db_def
        Let_def split: sum.splits prod.splits)
  ultimately show ?thesis
    using parse_orders_newline by simp
qed

subsection \<open>C2: identifiers in the query text\<close>

text \<open>
  Claim C2 says that no variant writes the identifier into the SQL text. The variant of
  \<^verbatim>\<open>src/api/main.py\<close> does: for the table name \<^verbatim>\<open>x]; DROP TABLE Orders;--\<close> the statement it
  executes is the text below, with no bound parameter.
\<close>

theorem get_table_data_concatenates:
  "snd (get_table_data db [] (py ''x]; DROP TABLE Orders;--'')) =
     [Execute (py ''SELECT TOP 100 * FROM dbo.[x]; DROP TABLE Orders;--]'') []]"
  by (simp add: get_table_data_def run_query_def get_table_data_sql_def py_def Let_def
      split: sum.splits prod.splits)

subsection \<open>C3: the limit\<close>

text \<open>
  Claim C3: an absent limit is 100, and a limit outside 1..5000 is answered with status 400
  before the identifier is parsed and before any database call: the answer is the same for
  every identifier and the trace of calls is unchanged.
\<close>

theorem read_table_limit:
  "read_table db tr table_full None = read_table db tr table_full (Some 100) \<and>
   (limit < 1 \<or> 5000 < limit \<longrightarrow>
      read_table db tr table_full (Some limit) = (Inl (HTTPException 400 msg_limit), tr))"
  by (simp add: read_table_def)

theorem read_table_limit_witness:
  "read_table orders_db [] (py ''dbo.Orders'') (Some 0) = (Inl (HTTPException 400 msg_limit), []) \<and>
   read_table orders_db [] (py ''dbo.Orders'') (Some 5001) = (Inl (HTTPException 400 msg_limit), []) \<and>
   read_table orders_db [] (py ''Orders; DROP TABLE x'') (Some (- 3)) =
     (Inl (HTTPException 400 msg_limit), [])"
  using read_table_limit [of orders_db "[]" "py ''dbo.Orders''" 0]
    read_table_limit [of orders_db "[]" "py ''dbo.Orders''" 5001]
    read_table_limit [of orders_db "[]" "py ''Orders; DROP TABLE x''" "- 3"]
  by simp

subsection \<open>C4: comment lookup\<close>

text \<open>
  Claim C4 says that a comment lookup that fails is never an error for the caller. The code
  has no handler around the lookup: on a server whose catalog cannot be read, the error of the
  driver leaves \<^verbatim>\<open>fetch_table_comments\<close> and \<^verbatim>\<open>read_table\<close>.
\<close>

theorem read_table_catalog_failure_counterexample:
  "fst (fetch_table_comments no_catalog_db [] (py ''dbo'') (py ''Orders'')) =
     Inl (DatabaseError (py ''permission denied'')) \<and>
   fst (read_table no_catalog_db [] (py ''dbo.Orders'') (Some 2)) =
     Inl (Unhandled (DatabaseError (py ''permission denied'')))"
  by (simp add: read_table_def parse_dbo_orders fetch_table_comments_def no_catalog_db_def)

text \<open>
  Claim C4 as amended, for a request with a valid limit and identifier: a lookup that fails
  is raised to the caller as an unhandled database error; a lookup that succeeds and finds no
  comment, every comment cell of the data frame being \<^verbatim>\<open>None\<close> or an empty or blank string,
  gives the empty mapping, and the rows are delivered under the physical column names.
\<close>

theorem read_table_comment_lookup:
  assumes "1 \<le> limit" and "limit \<le> 5000"
      and "parse_schema_table table_full = Inr (schema, tbl)"
  shows "(\<forall>msg. read_sql db COMMENTS_SQL (comment_params schema tbl) = Inl msg \<longrightarrow>
            fst (fetch_table_comments db tr schema tbl) = Inl (DatabaseError msg) \<and>
            fst (read_table db tr table_full (Some limit)) = Inl (Unhandled (DatabaseError msg))) \<and>
         (\<forall>df cols rws.
            read_sql db COMMENTS_SQL (comment_params schema tbl) = Inr df \<and>
            (\<forall>n c. (n, c) \<in> set df \<longrightarrow> c = CellNone \<or> (\<exists>s. c = CellStr s \<and> strip s = [])) \<and>
            execute db (row_sql limit) (comment_params schema tbl) = Inr (cols, rws) \<and>
            (\<forall>row\<in>set rws. length cols \<le> length row) \<longrightarrow>
            fst (fetch_table_comments db tr schema tbl) = Inr Map.empty \<and>
            fst (read_table db tr table_full (Some limit)) =
              Inr \<lparr>resp_table = schema @ py ''.'' @ tbl,
                   resp_columns = cols,
                   resp_rows = map (\<lambda>row. map_of (rev (zip cols row))) rws\<rparr>)"
proof (intro conjI allI impI)
  fix msg
  assume "read_sql db COMMENTS_SQL (comment_params schema tbl) = Inl msg"
  then have f: "fetch_table_comments db tr schema tbl =
      (Inl (DatabaseError msg), tr @ [ReadSql COMMENTS_SQL (comment_params schema tbl)])"
    by (simp add: fetch_table_comments_def)
  show "fst (fetch_table_comments db tr schema tbl) = Inl (DatabaseError msg)"
    using f by simp
  show "fst (read_table db tr table_full (Some limit)) = Inl (Unhandled (DatabaseError msg))"
    using assms f by (simp add: read_table_def)
next
  fix df cols rws
  assume a: "read_sql db COMMENTS_SQL (comment_params schema tbl) = Inr df \<and>
            (\<forall>n c. (n, c) \<in> set df \<longrightarrow> c = CellNone \<or> (\<exists>s. c = CellStr s \<and> strip s = [])) \<and>
            execute db (row_sql limit) (comment_params schema tbl) = Inr (cols, rws) \<and>
            (\<forall>row\<in>set rws. length cols \<le> length row)"
  have m: "comments_of_rows df = Map.empty"
    using a foldl_comment_step_blank [of df Map.empty] by (simp add: comments_of_rows_def)
  have f: "fetch_table_comments db tr schema tbl =
             (Inr Map.empty, tr @ [ReadSql COMMENTS_SQL (comment_params schema tbl)])"
    using a m by (simp add: fetch_table_comments_def)
  have o: "out_rows_loop cols rws [] = Inr (map (\<lambda>row. map_of (rev (zip cols row))) rws)"
    using a out_rows_loop_map [of rws cols "[]"] by simp
  show "fst (fetch_table_comments db tr schema tbl) = Inr Map.empty"
    using f by simp
  show "fst (read_table db tr table_full (Some limit)) =
              Inr \<lparr>resp_table = schema @ py ''.'' @ tbl,
                   resp_columns = cols,
                   resp_rows = map (\<lambda>row. map_of (rev (zip cols row))) rws\<rparr>"
    using assms a f o by (simp add: read_table_def display_cols_empty)
qed

theorem read_table_comment_lookup_witness:
  "parse_schema_table (py ''dbo.Orders'') = Inr (py ''dbo'', py ''Orders'') \<and>
   fst (fetch_table_comments plain_db [] (py ''dbo'') (py ''Orders'')) = Inr Map.empty \<and>
   fst (read_table plain_db [] (py ''dbo.Orders'') (Some 10)) =
     Inr \<lparr>resp_table = py ''dbo'' @ py ''.'' @ py ''Orders'',
          resp_columns = [py ''OrderID'', py ''CustomerID'', py ''Freight''],
          resp_rows = map (\<lambda>row. map_of (rev (zip [py ''OrderID'', py ''CustomerID'', py ''Freight''] row)))
                        [[SqlInt 10248, SqlStr (py ''VINET''), SqlInt 32]]\<rparr> \<and>
   fst (read_table no_catalog_db [] (py ''dbo.Orders'') (Some 10)) =
     Inl (Unhandled (DatabaseError (py ''permission denied'')))"
proof -
  let ?df = "[(py ''OrderID'', CellNone), (py ''CustomerID'', CellNone), (py ''Freight'', CellNone)]"
  let ?cols = "[py ''OrderID'', py ''CustomerID'', py ''Freight'']"
  let ?rws = "[[SqlInt 10248, SqlStr (py ''VINET''), SqlInt 32]]"
  have 1: "(1::int) \<le> 10" and 2: "(10::int) \<le> 5000" by simp_all
  note t = read_table_comment_lookup [OF 1 2 parse_dbo_orders]
  have 4: "read_sql plain_db COMMENTS_SQL (comment_params (py ''dbo'') (py ''Orders'')) = Inr ?df"
    by (simp add: plain_db_def)
  have 5: "\<forall>n c. (n, c) \<in> set ?df \<longrightarrow> c = CellNone \<or> (\<exists>s. c = CellStr s \<and> strip s = [])"
    by auto
  have 6: "execute plain_db (row_sql 10) (comment_params (py ''dbo'') (py ''Orders'')) =
             Inr (?cols, ?rws)"
    by (simp add: plain_db_def)
  have 7: "\<forall>row\<in>set ?rws. length ?cols \<le> length row"
    by simp
  have ok: "fst (fetch_table_comments plain_db [] (py ''dbo'') (py ''Orders'')) = Inr Map.empty \<and>
      fst (read_table plain_db [] (py ''dbo.Orders'') (Some 10)) =
        Inr \<lparr>resp_table = py ''dbo'' @ py ''.'' @ py ''Orders'',
             resp_columns = ?cols,
             resp_rows = map (\<lambda>row. map_of (rev (zip ?cols row))) ?rws\<rparr>"
    by (rule t [of plain_db "[]", THEN conjunct2, rule_format, of ?df ?cols ?rws])
      (intro conjI 4 5 6 7)
  have 8: "read_sql no_catalog_db COMMENTS_SQL (comment_params (py ''dbo'') (py ''Orders'')) =
             Inl (py ''permission denied'')"
    by (simp add: no_catalog_db_def)
  have bad: "fst (read_table no_catalog_db [] (py ''dbo.Orders'') (Some 10)) =
      Inl (Unhandled (DatabaseError (py ''permission denied'')))"
    using t [of no_catalog_db "[]", THEN conjunct1, rule_format, OF 8] by simp
  show ?thesis
    using parse_dbo_orders ok bad by simp
qed

subsection \<open>C5: identifiers with a dot\<close>

text \<open>
  Claim C5 says that every identifier that matches the allow-list and contains a dot is split
  at the first dot into the two trimmed halves. When a half is blank the resolver raises
  instead, as on \<^verbatim>\<open>dbo.\<close>
\<close>

theorem parse_schema_table_dotted_counterexample:
  "SAFE_NAME_RE_match (py ''dbo.'') \<and> 0x2E \<in> set (py ''dbo.'') \<and>
   parse_schema_table (py ''dbo.'') = Inl (ValueError msg_empty_part)"
  by (simp add: parse_schema_table_def str_defs)

text \<open>
  Claim C5 as amended: an identifier that matches the allow-list, contains a dot and has two
  halves that are not blank resolves to the part before the first dot and the part after it,
  both trimmed.
\<close>

theorem parse_schema_table_dotted:
  assumes "SAFE_NAME_RE_match raw"
      and "0x2E \<in> set raw"
      and "strip (fst (split_dot raw)) \<noteq> []"
      and "strip (snd (split_dot raw)) \<noteq> []"
  shows "parse_schema_table raw =
           Inr (strip (fst (split_dot raw)), strip (snd (split_dot raw)))"
proof -
  define a where "a = fst (split_dot raw)"
  define b where "b = snd (split_dot raw)"
  have raw: "raw = a @ 0x2E # b" and a: "0x2E \<notin> set a"
    using dot_decompose [OF assms(2)] by (simp_all add: a_def b_def)
  have full: "strip raw = lstrip a @ 0x2E # rstrip b"
    using strip_around [OF not_isspace_dot, of a b] raw by simp
  have la: "0x2E \<notin> set (lstrip a)"
    using a set_lstrip by blast
  have m: "SAFE_NAME_RE_match (strip raw)"
    using SAFE_NAME_RE_match_strip_safe [OF assms(1)] full
    by (intro SAFE_NAME_RE_match_all_safe) simp_all
  have dot: "0x2E \<in> set (strip raw)"
    using full by simp
  have sp: "split_dot (strip raw) = (lstrip a, rstrip b)"
    using split_dot_around [OF la, of "rstrip b"] full by simp
  have ne: "strip a \<noteq> []" "strip b \<noteq> []"
    using assms(3,4) by (simp_all add: a_def b_def)
  have "parse_schema_table raw = Inr (strip a, strip b)"
    using m dot sp ne
    by (simp add: parse_schema_table_def unquote_strip_safe [OF assms(1)]
        strip_lstrip strip_rstrip)
  then show ?thesis by (simp add: a_def b_def)
qed

text \<open>
  The identifier \<^verbatim>\<open>dbo.Order Details\<close> resolves to schema \<^verbatim>\<open>dbo\<close> and table \<^verbatim>\<open>Order Details\<close>.
\<close>

theorem parse_schema_table_dotted_witness:
  "SAFE_NAME_RE_match (py ''dbo.Order Details'') \<and> 0x2E \<in> set (py ''dbo.Order Details'') \<and>
   parse_schema_table (py ''dbo.Order Details'') = Inr (py ''dbo'', py ''Order Details'')"
proof -
  have 1: "SAFE_NAME_RE_match (py ''dbo.Order Details'')"
    by (simp add: str_defs)
  have 2: "0x2E \<in> set (py ''dbo.Order Details'')"
    by (simp add: py_def)
  have 3: "strip (fst (split_dot (py ''dbo.Order Details''))) = py ''dbo''"
    by (simp add: str_defs)
  have 4: "strip (snd (split_dot (py ''dbo.Order Details''))) = py ''Order Details''"
    by (simp add: str_defs)
  have 5: "py ''dbo'' \<noteq> []" "py ''Order Details'' \<noteq> []"
    by (simp_all add: py_def)
  show ?thesis
    using 1 2 parse_schema_table_dotted [of "py ''dbo.Order Details''"] 5
    unfolding 3 4 by simp
qed

subsection \<open>C6: identifiers without a dot\<close>

text \<open>
  Claim C6 says that every identifier that matches the allow-list and has no dot resolves to
  the schema \<^verbatim>\<open>dbo\<close> and the trimmed string. A blank identifier matches the allow-list (the
  space is in the class) and is refused.
\<close>

theorem parse_schema_table_undotted_counterexample:
  "SAFE_NAME_RE_match (py '' '') \<and> 0x2E \<notin> set (py '' '') \<and>
   parse_schema_table (py '' '') = Inl (ValueError msg_bad_format)"
  by (simp add: parse_schema_table_def str_defs)

text \<open>
  Claim C6 as amended: an identifier that matches the allow-list, has no dot and is not blank
  resolves to the schema \<^verbatim>\<open>dbo\<close> and the whole trimmed string as the table.
\<close>

theorem parse_schema_table_undotted:
  assumes "SAFE_NAME_RE_match raw"
      and "0x2E \<notin> set raw"
      and "strip raw \<noteq> []"
  shows "parse_schema_table raw = Inr (py ''dbo'', strip raw)"
proof -
  have m: "SAFE_NAME_RE_match (strip raw)"
    using SAFE_NAME_RE_match_strip_safe [OF assms(1)] assms(3)
    by (intro SAFE_NAME_RE_match_all_safe) simp_all
  have dot: "0x2E \<notin> set (strip raw)"
    using assms(2) set_strip by blast
  have "py ''dbo'' \<noteq> []" by (simp add: py_def)
  then show ?thesis
    using m dot assms(3)
    by (simp add: parse_schema_table_def unquote_strip_safe [OF assms(1)]
        strip_idem strip_py_dbo)
qed

text \<open>
  The identifier \<^verbatim>\<open>Orders\<close> resolves to schema \<^verbatim>\<open>dbo\<close> and table \<^verbatim>\<open>Orders\<close>.
\<close>

theorem parse_schema_table_undotted_witness:
  "SAFE_NAME_RE_match (py ''Orders'') \<and> 0x2E \<notin> set (py ''Orders'') \<and>
   parse_schema_table (py ''Orders'') = Inr (py ''dbo'', py ''Orders'')"
proof -
  have 1: "SAFE_NAME_RE_match (py ''Orders'')"
    by (simp add: str_defs)
  have 2: "0x2E \<notin> set (py ''Orders'')"
    by (simp add: py_def)
  have 3: "strip (py ''Orders'') = py ''Orders''"
    by (simp add: str_defs)
  have 4: "py ''Orders'' \<noteq> []"
    by (simp add: py_def)
  show ?thesis
    using 1 2 4 parse_schema_table_undotted [of "py ''Orders''"]
    unfolding 3 by simp
qed

subsection \<open>C7: display labels\<close>

text \<open>
  Claim C7: the list of display labels has the length and the order of the list of physical
  columns; each entry is the label of its column where the label map has one and the physical
  name otherwise.
\<close>

theorem display_cols_override:
  "length (display_cols label_map cols) = length cols \<and>
   (\<forall>i<length cols.
      display_cols label_map cols ! i =
        (case label_map (cols ! i) of None \<Rightarrow> cols ! i | Some label \<Rightarrow> label))"
  by (simp add: display_cols_def dict_get_def)

theorem display_cols_override_witness:
  "length (display_cols [py ''OrderID'' \<mapsto> [0x8A02, 0x55AE, 0x7DE8, 0x865F], py ''Freight'' \<mapsto> [0x904B, 0x8CBB]]
             [py ''OrderID'', py ''CustomerID'', py ''Freight'']) = 3 \<and>
   display_cols [py ''OrderID'' \<mapsto> [0x8A02, 0x55AE, 0x7DE8, 0x865F], py ''Freight'' \<mapsto> [0x904B, 0x8CBB]]
     [py ''OrderID'', py ''CustomerID'', py ''Freight''] ! 0 = [0x8A02, 0x55AE, 0x7DE8, 0x865F] \<and>
   display_cols [py ''OrderID'' \<mapsto> [0x8A02, 0x55AE, 0x7DE8, 0x865F], py ''Freight'' \<mapsto> [0x904B, 0x8CBB]]
     [py ''OrderID'', py ''CustomerID'', py ''Freight''] ! 1 = py ''CustomerID'' \<and>
   display_cols [py ''OrderID'' \<mapsto> [0x8A02, 0x55AE, 0x7DE8, 0x865F], py ''Freight'' \<mapsto> [0x904B, 0x8CBB]]
     [py ''OrderID'', py ''CustomerID'', py ''Freight''] ! 2 = [0x904B, 0x8CBB]"
proof -
  let ?m = "[py ''OrderID'' \<mapsto> [0x8A02, 0x55AE, 0x7DE8, 0x865F], py ''Freight'' \<mapsto> [0x904B, 0x8CBB]]"
  let ?cols = "[py ''OrderID'', py ''CustomerID'', py ''Freight'']"
  note t = display_cols_override [of ?m ?cols]
  have len: "length (display_cols ?m ?cols) = 3"
    using t by simp
  have nth: "\<forall>i<3. display_cols ?m ?cols ! i =
               (case ?m (?cols ! i) of None \<Rightarrow> ?cols ! i | Some label \<Rightarrow> label)"
    using t by simp
  have 0: "display_cols ?m ?cols ! 0 = [0x8A02, 0x55AE, 0x7DE8, 0x865F]"
    using nth [THEN spec, of 0] by (simp add: py_def)
  have 1: "display_cols ?m ?cols ! 1 = py ''CustomerID''"
    using nth [THEN spec, of 1] by (simp add: py_def)
  have 2: "display_cols ?m ?cols ! 2 = [0x904B, 0x8CBB]"
    using nth [THEN spec, of 2] by (simp add: py_def)
  show ?thesis
    using len 0 1 2 by simp
qed

subsection \<open>C9: columns with the same label\<close>

text \<open>
  Claim C9, for a row that has a value for every column, in both variants: the row object has
  exactly the display labels as keys; a label holds the value of the last column that carries
  it, so with a repeated label the object has fewer keys than there are columns; with distinct
  labels every label holds the value of its own column.
\<close>

theorem row_dict_last_wins:
  assumes "length cols \<le> length row" and "dcols = display_cols label_map cols"
  shows "\<exists>d. out_row dcols row = Inr d \<and>
             item_loop label_map (zip cols row) Map.empty = d \<and>
             dom d = set dcols \<and>
             (\<forall>i<length dcols.
                (\<forall>j. i < j \<and> j < length dcols \<longrightarrow> dcols ! j \<noteq> dcols ! i) \<longrightarrow>
                d (dcols ! i) = Some (row ! i)) \<and>
             (\<not> distinct dcols \<longrightarrow> card (dom d) < length dcols) \<and>
             (distinct dcols \<longrightarrow>
                card (dom d) = length dcols \<and> (\<forall>i<length dcols. d (dcols ! i) = Some (row ! i)))"
proof -
  let ?d = "map_of (rev (zip dcols row))"
  have len: "length dcols \<le> length row"
    using assms by (simp add: display_cols_def)
  have 1: "out_row dcols row = Inr ?d"
    using len by (rule out_row_map_of)
  have 2: "item_loop label_map (zip cols row) Map.empty = ?d"
    unfolding assms(2) by (rule item_loop_display_cols)
  have 3: "dom ?d = set dcols"
    using len by (rule dom_map_of_rev_zip)
  have 4: "\<forall>i<length dcols.
      (\<forall>j. i < j \<and> j < length dcols \<longrightarrow> dcols ! j \<noteq> dcols ! i) \<longrightarrow> ?d (dcols ! i) = Some (row ! i)"
    using len by (auto intro: map_of_rev_zip_last)
  have 5: "\<not> distinct dcols \<longrightarrow> card (dom ?d) < length dcols"
  proof
    assume nd: "\<not> distinct dcols"
    have "card (set dcols) \<noteq> length dcols"
      using nd card_distinct by blast
    then show "card (dom ?d) < length dcols"
      unfolding 3 using card_length [of dcols] by linarith
  qed
  have 6: "distinct dcols \<longrightarrow> card (dom ?d) = length dcols"
    unfolding 3 by (simp add: distinct_card)
  have 7: "distinct dcols \<longrightarrow> (\<forall>i<length dcols. ?d (dcols ! i) = Some (row ! i))"
  proof (intro impI allI)
    fix i assume d: "distinct dcols" and i: "i < length dcols"
    have "\<forall>j. i < j \<and> j < length dcols \<longrightarrow> dcols ! j \<noteq> dcols ! i"
      using d i by (auto simp: nth_eq_iff_index_eq)
    then show "?d (dcols ! i) = Some (row ! i)"
      using 4 i by blast
  qed
  show ?thesis
    using 1 2 3 4 5 6 7 by blast
qed

theorem row_dict_last_wins_witness:
  "\<exists>d. out_row [py ''Address'', py ''Address'', py ''City''] [SqlInt 1, SqlInt 2, SqlInt 3] = Inr d \<and>
        item_loop [py ''Addr1'' \<mapsto> py ''Address'', py ''Addr2'' \<mapsto> py ''Address'']
          (zip [py ''Addr1'', py ''Addr2'', py ''City''] [SqlInt 1, SqlInt 2, SqlInt 3]) Map.empty = d \<and>
        d (py ''Address'') = Some (SqlInt 2) \<and>
        d (py ''City'') = Some (SqlInt 3) \<and>
        card (dom d) = 2"
proof -
  let ?m = "[py ''Addr1'' \<mapsto> py ''Address'', py ''Addr2'' \<mapsto> py ''Address'']"
  let ?cols = "[py ''Addr1'', py ''Addr2'', py ''City'']"
  let ?dcols = "[py ''Address'', py ''Address'', py ''City'']"
  let ?row = "[SqlInt 1, SqlInt 2, SqlInt 3]"
  have 1: "length ?cols \<le> length ?row" by simp
  have 2: "?dcols = display_cols ?m ?cols"
    by (simp add: display_cols_def dict_get_def py_def)
  from row_dict_last_wins [OF 1 2]
  obtain d where d: "out_row ?dcols ?row = Inr d"
    and i: "item_loop ?m (zip ?cols ?row) Map.empty = d"
    and dom: "dom d = set ?dcols"
    and last: "\<forall>i<length ?dcols.
        (\<forall>j. i < j \<and> j < length ?dcols \<longrightarrow> ?dcols ! j \<noteq> ?dcols ! i) \<longrightarrow>
        d (?dcols ! i) = Some (?row ! i)"
    by blast
  have j2: "\<forall>j. (2::nat) < j \<and> j < length ?dcols \<longrightarrow> ?dcols ! j \<noteq> ?dcols ! 2"
  proof (intro allI impI)
    fix j :: nat assume "2 < j \<and> j < length ?dcols"
    then have False by auto
    then show "?dcols ! j \<noteq> ?dcols ! 2" ..
  qed
  have j1: "\<forall>j. (1::nat) < j \<and> j < length ?dcols \<longrightarrow> ?dcols ! j \<noteq> ?dcols ! 1"
  proof (intro allI impI)
    fix j :: nat assume "1 < j \<and> j < length ?dcols"
    then have "j = 2" by auto
    then show "?dcols ! j \<noteq> ?dcols ! 1" by (simp add: py_def)
  qed
  have l1: "(1::nat) < length ?dcols" and l2: "(2::nat) < length ?dcols"
    by simp_all
  have "d (?dcols ! 1) = Some (?row ! 1)"
    by (rule last [rule_format, OF l1]) (rule j1 [rule_format])
  then have a: "d (py ''Address'') = Some (SqlInt 2)"
    by simp
  have "d (?dcols ! 2) = Some (?row ! 2)"
    by (rule last [rule_format, OF l2]) (rule j2 [rule_format])
  then have c: "d (py ''City'') = Some (SqlInt 3)"
    by simp
  have "card (set ?dcols) = 2"
    by (simp add: py_def)
  then have k: "card (dom d) = 2"
    using dom by simp
  show ?thesis
    using d i a c k by (intro exI [of _ d] conjI)
qed

subsection \<open>C10: the labels of the comment map\<close>

text \<open>
  Claim C10 says that a column whose stored comment is null has no entry in the mapping. The
  guard of the loop tests the truth value of the cell, and a \<^verbatim>\<open>NULL\<close> that the data frame
  holds as \<^verbatim>\<open>nan\<close> is true: for the table \<^verbatim>\<open>dbo.Orders\<close>, whose column \<^verbatim>\<open>CustomerID\<close> has
  no comment, the mapping gives that column the label \<^verbatim>\<open>nan\<close>, and the reply shows it among
  the columns.
\<close>

theorem fetch_table_comments_keeps_nan:
  "fst (fetch_table_comments orders_nan_db [] (py ''dbo'') (py ''Orders'')) =
     Inr [py ''OrderID'' \<mapsto> [0x8A02, 0x55AE, 0x7DE8, 0x865F],
          py ''CustomerID'' \<mapsto> py ''nan'',
          py ''Freight'' \<mapsto> [0x904B, 0x8CBB]] \<and>
   (\<exists>r. fst (read_table orders_nan_db [] (py ''dbo.Orders'') (Some 2)) = Inr r \<and>
        resp_columns r = [[0x8A02, 0x55AE, 0x7DE8, 0x865F], py ''nan'', [0x904B, 0x8CBB]])"
proof -
  let ?df = "[(py ''OrderID'', CellStr [0x8A02, 0x55AE, 0x7DE8, 0x865F]),
              (py ''CustomerID'', CellNaN),
              (py ''Freight'', CellStr [0x20, 0x904B, 0x8CBB, 0x20])]"
  let ?m = "[py ''OrderID'' \<mapsto> [0x8A02, 0x55AE, 0x7DE8, 0x865F],
             py ''CustomerID'' \<mapsto> py ''nan'',
             py ''Freight'' \<mapsto> [0x904B, 0x8CBB]]"
  let ?cols = "[py ''OrderID'', py ''CustomerID'', py ''Freight'']"
  let ?rws = "[[SqlInt 10248, SqlStr (py ''VINET''), SqlInt 32],
               [SqlInt 10249, SqlStr (py ''TOMSP''), SqlInt 11]]"
  have s1: "strip (py ''nan'') = py ''nan''"
    by (simp add: str_defs)
  have s2: "strip [0x8A02, 0x55AE, 0x7DE8, 0x865F] = [0x8A02, 0x55AE, 0x7DE8, 0x865F]"
    by (simp add: str_defs)
  have s3: "strip [0x20, 0x904B, 0x8CBB, 0x20] = [0x904B, 0x8CBB]"
    by (simp add: str_defs)
  have n: "py ''nan'' \<noteq> []"
    by (simp add: py_def)
  have m: "comments_of_rows ?df = ?m"
    by (simp add: comments_of_rows_def s1 s2 s3 n)
  have r: "read_sql orders_nan_db COMMENTS_SQL (comment_params (py ''dbo'') (py ''Orders'')) = Inr ?df"
    by (simp add: orders_nan_db_def)
  have f: "fst (fetch_table_comments orders_nan_db [] (py ''dbo'') (py ''Orders'')) = Inr ?m"
    using r m by (simp add: fetch_table_comments_def)
  have e: "execute orders_nan_db (row_sql 2) (comment_params (py ''dbo'') (py ''Orders'')) =
      Inr (?cols, ?rws)"
    by (simp add: orders_nan_db_def orders_db_def)
  have d: "display_cols ?m ?cols = [[0x8A02, 0x55AE, 0x7DE8, 0x865F], py ''nan'', [0x904B, 0x8CBB]]"
    by (simp add: display_cols_def dict_get_def py_def)
  have l: "\<forall>row\<in>set ?rws. length ?cols \<le> length row"
    by simp
  have 1: "(1::int) \<le> 2" and 2: "(2::int) \<le> 5000"
    by simp_all
  have "resp_columns (projr (fst (read_table orders_nan_db [] (py ''dbo.Orders'') (Some 2)))) =
          display_cols (comments_of_rows ?df) ?cols \<and>
        isl (fst (read_table orders_nan_db [] (py ''dbo.Orders'') (Some 2))) = False"
    unfolding read_table_reply [OF 1 2 parse_dbo_orders r e l, of "[]"] by simp
  then have "\<exists>r. fst (read_table orders_nan_db [] (py ''dbo.Orders'') (Some 2)) = Inr r \<and>
        resp_columns r = [[0x8A02, 0x55AE, 0x7DE8, 0x865F], py ''nan'', [0x904B, 0x8CBB]]"
    unfolding m d by (cases "fst (read_table orders_nan_db [] (py ''dbo.Orders'') (Some 2))") auto
  then show ?thesis
    using f by blast
qed

end
